theory Spec2Isabelle
  imports Complex_Main
begin

section \<open>Core game types (app/types)\<close>

text \<open>
  Every number of the source is a JavaScript number. Tile values, targets and
  results take part in the arithmetic of the game, division included, so they are
  modelled as rationals (\<^typ>\<open>rat\<close>) with exact arithmetic: that a value is an
  integer is then a property to prove, not one of the type. The rounding of doubles
  is not modelled. Positions, grid sizes, level numbers and timestamps are only
  counted, compared and printed; they are modelled as \<^typ>\<open>int\<close>.
\<close>

record NumberObject =
  "value" :: rat
  id_str :: string
  position :: int

datatype Operation = Add | Sub | Mul | Div

record GameState =
  numbers :: "NumberObject list"
  gridSize :: int
  num1 :: NumberObject
  num2 :: NumberObject
  operation :: Operation
  result :: rat

text \<open>
  \<open>Puzzle\<close> and the JSON \<open>LevelData\<close> both have fields \<open>target\<close> and \<open>numbers\<close> in
  the source; the record fields carry a prefix to keep them apart from \<open>GameState\<close>.
\<close>

record Puzzle =
  target :: rat
  pnumbers :: "NumberObject list"

record LevelData =
  ltarget :: rat
  lnumbers :: "rat list"

section \<open>JavaScript primitives used by the game logic\<close>

text \<open>
  \<open>a % b\<close> is the remainder of the truncating division, \<open>a - b * trunc (a / b)\<close>: it
  has the sign of the dividend, and it is NaN (here \<open>None\<close>) when the divisor is zero.
\<close>

definition trunc :: "rat \<Rightarrow> int" where
  "trunc q = (if 0 \<le> q then \<lfloor>q\<rfloor> else \<lceil>q\<rceil>)"

definition trunc_rem :: "rat \<Rightarrow> rat \<Rightarrow> rat" where
  "trunc_rem a b = a - b * of_int (trunc (a / b))"

definition js_rem :: "rat \<Rightarrow> rat \<Rightarrow> rat option" where
  "js_rem a b = (if b = 0 then None else Some (trunc_rem a b))"

text \<open>\<open>Number.prototype.toString\<close> on an integer: decimal digits, a minus sign first.\<close>

definition digit_char :: "nat \<Rightarrow> char" where
  "digit_char d = ''0123456789'' ! d"

fun digits10 :: "nat \<Rightarrow> string" where
  "digits10 n = (if n < 10 then [digit_char n]
                 else digits10 (n div 10) @ [digit_char (n mod 10)])"

declare digits10.simps [simp del]

definition toString :: "int \<Rightarrow> string" where
  "toString i = (if i < 0 then CHR ''-'' # digits10 (nat (- i)) else digits10 (nat i))"

section \<open>GameLogicService (app/utils/gameLogic)\<close>

subsection \<open>Arithmetic\<close>

text \<open>
  \<open>validateDivision\<close>: false when the second operand is zero; otherwise the larger
  operand must leave remainder zero by the smaller one. \<open>NaN === 0\<close> is false.
\<close>

definition validateDivision :: "rat \<Rightarrow> rat \<Rightarrow> bool" where
  "validateDivision n1 n2 =
     (if n2 = 0 then False
      else let larger = max n1 n2; smaller = min n1 n2
           in js_rem larger smaller = Some 0)"

text \<open>
  \<open>performCalculation\<close> of the service: \<open>None\<close> is the source's \<open>null\<close>, and \<open>/\<close>
  is the division of numbers, whose quotient need not be an integer.
\<close>

fun performCalculation :: "rat \<Rightarrow> Operation \<Rightarrow> rat \<Rightarrow> rat option" where
  "performCalculation n1 Add n2 = Some (n1 + n2)"
| "performCalculation n1 Sub n2 = Some \<bar>n1 - n2\<bar>"
| "performCalculation n1 Mul n2 = Some (n1 * n2)"
| "performCalculation n1 Div n2 =
     (if \<not> validateDivision n1 n2 then None
      else let larger = max n1 n2; smaller = min n1 n2
           in Some (larger / smaller))"


subsection \<open>Puzzle resolution\<close>

text \<open>
  The authored level data (\<open>data/levels.json\<close>) is a parameter: a dictionary from the
  decimal level number to target and numbers. \<open>now\<close> is the value of \<open>Date.now()\<close>.
\<close>

definition createFallbackPuzzle :: "int \<Rightarrow> int \<Rightarrow> Puzzle" where
  "createFallbackPuzzle now levelNum =
     (let baseNumbers = [2, 3, 4, 5];
          nums = map (\<lambda>(index, v).
                   \<lparr>value = v + trunc_rem (of_int levelNum) 5,
                    id_str = ''fallback_'' @ toString levelNum @ ''_'' @ toString (int index)
                             @ ''_'' @ toString now,
                    position = int index\<rparr>) (enumerate 0 baseNumbers);
          tgt = value (nums ! 0) + value (nums ! 1)
      in \<lparr>target = tgt, pnumbers = nums\<rparr>)"

definition generatePuzzle :: "(string \<rightharpoonup> LevelData) \<Rightarrow> int \<Rightarrow> int \<Rightarrow> Puzzle" where
  "generatePuzzle levels now levelNum =
     (case levels (toString levelNum) of
        None \<Rightarrow> createFallbackPuzzle now levelNum
      | Some levelData \<Rightarrow>
          \<lparr>target = ltarget levelData,
           pnumbers = map (\<lambda>(index, v).
                   \<lparr>value = v,
                    id_str = ''level_'' @ toString levelNum @ ''_'' @ toString (int index)
                             @ ''_'' @ toString now,
                    position = int index\<rparr>) (enumerate 0 (lnumbers levelData))\<rparr>)"

subsection \<open>Win test\<close>

definition isGameWon :: "NumberObject list \<Rightarrow> rat \<Rightarrow> bool" where
  "isGameWon availNumbers targetNum = list_ex (\<lambda>num. value num = targetNum) availNumbers"

section \<open>StorageService (app/utils/storage)\<close>

text \<open>
  The two items kept in AsyncStorage, with their string encoding left out. Whether a
  call to AsyncStorage rejects comes from the environment, as a flag per call. A
  rejected promise (a thrown error) is \<open>None\<close>.
\<close>

record Storage =
  current_level :: "int option"
  completed_levels :: "int list option"

definition getCompletedLevels :: "Storage \<Rightarrow> bool \<Rightarrow> int list" where
  "getCompletedLevels st getFails =
     (if getFails then []
      else case completed_levels st of None \<Rightarrow> [] | Some ls \<Rightarrow> ls)"

definition setCurrentLevel :: "Storage \<Rightarrow> bool \<Rightarrow> int \<Rightarrow> Storage option" where
  "setCurrentLevel st setFails lvl =
     (if lvl < 1 then None
      else if setFails then None
      else Some (st\<lparr>current_level := Some lvl\<rparr>))"

definition addCompletedLevel :: "Storage \<Rightarrow> bool \<Rightarrow> bool \<Rightarrow> int \<Rightarrow> Storage option" where
  "addCompletedLevel st getFails setFails lvl =
     (if lvl < 1 then None
      else let completed = getCompletedLevels st getFails
           in if lvl \<in> set completed then Some st
              else if setFails then None
              else Some (st\<lparr>completed_levels := Some (sort (completed @ [lvl]))\<rparr>))"

section \<open>GameScreen: the puzzle session\<close>

text \<open>
  The component's state variables, together with the callbacks handed to
  \<open>setTimeout\<close> that have not run yet.
\<close>

datatype Timer = ShowLevelCompleteTimer | InvalidClearTimer

record Session =
  level :: int
  targetNumber :: rat
  availableNumbers :: "NumberObject list"
  initialGridSize :: int
  originalPuzzle :: "Puzzle option"
  selectedNumber1 :: "NumberObject option"
  selectedOperation :: "Operation option"
  selectedNumber2 :: "NumberObject option"
  gameWon :: bool
  showLevelComplete :: bool
  invalidOperation :: bool
  gameHistory :: "GameState list"
  timers :: "Timer list"

definition resetSelection :: "Session \<Rightarrow> Session" where
  "resetSelection s =
     s\<lparr>selectedNumber1 := None, selectedOperation := None,
       selectedNumber2 := None, invalidOperation := False\<rparr>"

text \<open>
  The effect on \<open>[level]\<close>: load the puzzle of the current level.
\<close>

definition loadLevelEffect :: "(string \<rightharpoonup> LevelData) \<Rightarrow> int \<Rightarrow> Session \<Rightarrow> Session" where
  "loadLevelEffect levels now s =
     (let puzzle = generatePuzzle levels now (level s)
      in (resetSelection
           (s\<lparr>targetNumber := target puzzle,
              availableNumbers := pnumbers puzzle,
              initialGridSize := int (length (pnumbers puzzle)),
              originalPuzzle := Some \<lparr>target = target puzzle, pnumbers = pnumbers puzzle\<rparr>\<rparr>))
         \<lparr>gameWon := False, showLevelComplete := False, gameHistory := []\<rparr>)"

text \<open>
  The effect on \<open>[availableNumbers, targetNumber]\<close>: the win check. It only ever
  sets \<open>gameWon\<close>; it has no branch that clears it.
\<close>

definition winCheckEffect :: "Session \<Rightarrow> Session" where
  "winCheckEffect s =
     (if isGameWon (availableNumbers s) (targetNumber s)
      then s\<lparr>gameWon := True, timers := timers s @ [ShowLevelCompleteTimer]\<rparr>
      else s)"

text \<open>
  \<open>performCalculation\<close> of the screen. \<open>newId\<close> is the identifier built from
  \<open>Date.now()\<close> and \<open>Math.random()\<close> for the result tile.
\<close>

definition screen_performCalculation ::
  "string \<Rightarrow> NumberObject \<Rightarrow> Operation \<Rightarrow> NumberObject \<Rightarrow> Session \<Rightarrow> Session" where
  "screen_performCalculation newId num1Obj op num2Obj s =
     (let n1 = value num1Obj; n2 = value num2Obj
      in if op = Div \<and> \<not> validateDivision n1 n2
         then s\<lparr>invalidOperation := True, timers := timers s @ [InvalidClearTimer]\<rparr>
         else case performCalculation n1 op n2 of
                None \<Rightarrow> s
              | Some res \<Rightarrow>
                  let newNumbers = filter (\<lambda>n. id_str n \<noteq> id_str num1Obj
                                              \<and> id_str n \<noteq> id_str num2Obj)
                                     (availableNumbers s);
                      newNumbers' = (if res > 0
                                     then newNumbers @ [\<lparr>value = res, id_str = newId,
                                                         position = position num1Obj\<rparr>]
                                     else newNumbers)
                  in resetSelection
                       (s\<lparr>gameHistory := gameHistory s @
                             [\<lparr>numbers = availableNumbers s,
                               gridSize = initialGridSize s,
                               num1 = num1Obj, num2 = num2Obj,
                               operation = op, result = res\<rparr>],
                          availableNumbers := newNumbers'\<rparr>))"

definition selectNumber :: "string \<Rightarrow> NumberObject \<Rightarrow> Session \<Rightarrow> Session" where
  "selectNumber newId numberObj s =
     (case selectedNumber1 s of
        None \<Rightarrow> s\<lparr>selectedNumber1 := Some numberObj\<rparr>
      | Some sel1 \<Rightarrow>
          (case selectedOperation s of
             None \<Rightarrow> s\<lparr>selectedNumber1 := Some numberObj\<rparr>
           | Some op \<Rightarrow>
               if selectedNumber2 s = None \<and> id_str numberObj \<noteq> id_str sel1
               then screen_performCalculation newId sel1 op numberObj
                      (s\<lparr>selectedNumber2 := Some numberObj\<rparr>)
               else s))"

definition selectOperation :: "Operation \<Rightarrow> Session \<Rightarrow> Session" where
  "selectOperation op s =
     (if selectedNumber1 s \<noteq> None
      then s\<lparr>selectedOperation := Some op, selectedNumber2 := None\<rparr>
      else s)"

text \<open>The \<open>OperationButton\<close> component calls its \<open>onPress\<close> unless it is disabled.\<close>

definition operationButton_handlePress :: "Operation \<Rightarrow> Session \<Rightarrow> Session" where
  "operationButton_handlePress op s =
     (let isDisabled = (selectedNumber1 s = None)
      in if \<not> isDisabled then selectOperation op s else s)"

text \<open>The clear button of \<open>ActionButtons\<close> calls \<open>resetSelection\<close> when \<open>canClear\<close>.\<close>

definition actionButtons_handleClear :: "Session \<Rightarrow> Session" where
  "actionButtons_handleClear s =
     (let canClear = (selectedNumber1 s \<noteq> None)
      in if canClear then resetSelection s else s)"

definition undoLastMove :: "Session \<Rightarrow> Session" where
  "undoLastMove s =
     (if length (gameHistory s) = 0 then s
      else let lastState = gameHistory s ! (length (gameHistory s) - 1)
           in resetSelection
                (s\<lparr>availableNumbers := numbers lastState,
                   initialGridSize := gridSize lastState,
                   gameHistory := butlast (gameHistory s)\<rparr>))"

definition restartLevel :: "(string \<rightharpoonup> LevelData) \<Rightarrow> int \<Rightarrow> Session \<Rightarrow> Session" where
  "restartLevel levels now s =
     (let s1 = (case originalPuzzle s of
                  Some orig \<Rightarrow>
                    s\<lparr>targetNumber := target orig,
                      availableNumbers := pnumbers orig,
                      initialGridSize := int (length (pnumbers orig))\<rparr>
                | None \<Rightarrow>
                    let puzzle = generatePuzzle levels now (level s)
                    in s\<lparr>targetNumber := target puzzle,
                         availableNumbers := pnumbers puzzle,
                         initialGridSize := int (length (pnumbers puzzle)),
                         originalPuzzle :=
                           Some \<lparr>target = target puzzle, pnumbers = pnumbers puzzle\<rparr>\<rparr>)
      in (resetSelection s1)
           \<lparr>gameWon := False, showLevelComplete := False, gameHistory := []\<rparr>)"

text \<open>
  \<open>nextLevel\<close>: the two awaited storage calls, then the advance; the \<open>catch\<close> block
  advances as well. The result holds the new session, the arguments with which
  \<open>onLevelComplete\<close> was called, and the storage. \<open>hasCallback\<close> tells whether the
  optional \<open>onLevelComplete\<close> was passed to the screen.
\<close>

definition nextLevel ::
  "bool \<Rightarrow> bool \<Rightarrow> bool \<Rightarrow> bool \<Rightarrow> Storage \<Rightarrow> Session \<Rightarrow> Session \<times> int list \<times> Storage" where
  "nextLevel hasCallback getFails addFails setFails st s =
     (let notify = (\<lambda>n. if hasCallback then [n] else [])
      in case addCompletedLevel st getFails addFails (level s) of
           None \<Rightarrow>
             (let newLevel = level s + 1
              in (s\<lparr>level := newLevel\<rparr>, notify newLevel, st))
         | Some st1 \<Rightarrow>
             (let newLevel = level s + 1
              in case setCurrentLevel st1 setFails newLevel of
                   None \<Rightarrow>
                     (let newLevel' = level s + 1
                      in (s\<lparr>level := newLevel'\<rparr>, notify newLevel', st1))
                 | Some st2 \<Rightarrow> (s\<lparr>level := newLevel\<rparr>, notify newLevel, st2)))"

subsection \<open>Timers\<close>

fun timerCallback :: "Timer \<Rightarrow> Session \<Rightarrow> Session" where
  "timerCallback ShowLevelCompleteTimer s = s\<lparr>showLevelComplete := True\<rparr>"
| "timerCallback InvalidClearTimer s = resetSelection (s\<lparr>invalidOperation := False\<rparr>)"

definition fireTimer :: "Timer \<Rightarrow> Session \<Rightarrow> Session" where
  "fireTimer t s =
     (if t \<in> set (timers s)
      then timerCallback t (s\<lparr>timers := remove1 t (timers s)\<rparr>)
      else s)"

subsection \<open>Player actions, each followed by the effects it triggers\<close>

text \<open>
  A press on a tile reduces when an operand and an operation are selected, no second
  operand is, the tile is another one, and the calculation is accepted. Only then
  does the handler replace \<open>availableNumbers\<close>, so only then does the win check run.
\<close>

definition reduces :: "NumberObject \<Rightarrow> Session \<Rightarrow> bool" where
  "reduces numberObj s =
     (case (selectedNumber1 s, selectedOperation s) of
        (Some sel1, Some op) \<Rightarrow>
          selectedNumber2 s = None \<and> id_str numberObj \<noteq> id_str sel1
          \<and> \<not> (op = Div \<and> \<not> validateDivision (value sel1) (value numberObj))
          \<and> performCalculation (value sel1) op (value numberObj) \<noteq> None
      | _ \<Rightarrow> False)"

definition pressNumber :: "string \<Rightarrow> NumberObject \<Rightarrow> Session \<Rightarrow> Session" where
  "pressNumber newId numberObj s =
     (if reduces numberObj s then winCheckEffect (selectNumber newId numberObj s)
      else selectNumber newId numberObj s)"

definition undo :: "Session \<Rightarrow> Session" where
  "undo s = (if gameHistory s = [] then undoLastMove s else winCheckEffect (undoLastMove s))"

definition restart :: "(string \<rightharpoonup> LevelData) \<Rightarrow> int \<Rightarrow> Session \<Rightarrow> Session" where
  "restart levels now s = winCheckEffect (restartLevel levels now s)"

datatype Action =
    PressNumber string NumberObject
  | PressOperation Operation
  | Clear
  | Undo
  | Restart int
  | Fire Timer

fun dispatch :: "(string \<rightharpoonup> LevelData) \<Rightarrow> Action \<Rightarrow> Session \<Rightarrow> Session" where
  "dispatch levels (PressNumber newId numberObj) s = pressNumber newId numberObj s"
| "dispatch levels (PressOperation op) s = operationButton_handlePress op s"
| "dispatch levels Clear s = actionButtons_handleClear s"
| "dispatch levels Undo s = undo s"
| "dispatch levels (Restart now) s = restart levels now s"
| "dispatch levels (Fire t) s = fireTimer t s"

fun run :: "(string \<rightharpoonup> LevelData) \<Rightarrow> Action list \<Rightarrow> Session \<Rightarrow> Session" where
  "run levels [] s = s"
| "run levels (a # as) s = run levels as (dispatch levels a s)"

text \<open>
  The session after the screen has mounted: the initial state values, the level
  effect, and the win check on the loaded tiles.
\<close>

definition initialSession :: "int option \<Rightarrow> Session" where
  "initialSession initialLevel =
     \<lparr>level = (case initialLevel of None \<Rightarrow> 1 | Some l \<Rightarrow> if l = 0 then 1 else l),
      targetNumber = 0, availableNumbers = [], initialGridSize = 6,
      originalPuzzle = None,
      selectedNumber1 = None, selectedOperation = None, selectedNumber2 = None,
      gameWon = False, showLevelComplete = False, invalidOperation = False,
      gameHistory = [], timers = []\<rparr>"

definition mount :: "(string \<rightharpoonup> LevelData) \<Rightarrow> int \<Rightarrow> int option \<Rightarrow> Session" where
  "mount levels now initialLevel =
     winCheckEffect (loadLevelEffect levels now (initialSession initialLevel))"

section \<open>Predicates used in the statements\<close>

text \<open>A number is an integer when it is its own floor.\<close>

definition is_integer :: "rat \<Rightarrow> bool" where
  "is_integer q = (of_int \<lfloor>q\<rfloor> = q)"

definition nonneg_integer_tiles :: "NumberObject list \<Rightarrow> bool" where
  "nonneg_integer_tiles ns = list_all (\<lambda>n. is_integer (value n) \<and> 0 \<le> value n) ns"

text \<open>
  The invariant behind it: the active tiles, the tiles of every snapshot in the
  history and the tiles of the original puzzle hold non-negative integers, and a
  selected first tile is active.
\<close>

definition nonneg_integer_session :: "Session \<Rightarrow> bool" where
  "nonneg_integer_session s =
     (nonneg_integer_tiles (availableNumbers s)
      \<and> list_all (\<lambda>g. nonneg_integer_tiles (numbers g)) (gameHistory s)
      \<and> (case originalPuzzle s of None \<Rightarrow> False
          | Some p \<Rightarrow> nonneg_integer_tiles (pnumbers p))
      \<and> set_option (selectedNumber1 s) \<subseteq> set (availableNumbers s))"

text \<open>Every press is on an active tile: the grid shows no other.\<close>

fun active_press :: "Session \<Rightarrow> Action \<Rightarrow> bool" where
  "active_press s (PressNumber newId numberObj) = (numberObj \<in> set (availableNumbers s))"
| "active_press s _ = True"

fun active_run :: "(string \<rightharpoonup> LevelData) \<Rightarrow> Action list \<Rightarrow> Session \<Rightarrow> bool" where
  "active_run levels [] s = True"
| "active_run levels (a # as) s =
     (active_press s a \<and> active_run levels as (dispatch levels a s))"

text \<open>An operation is selected only while a first tile is.\<close>

definition operation_needs_first :: "Session \<Rightarrow> bool" where
  "operation_needs_first s = (selectedOperation s = None \<or> selectedNumber1 s \<noteq> None)"

text \<open>The component state alone, without the pending timeouts.\<close>

definition forget_timers :: "Session \<Rightarrow> Session" where
  "forget_timers s = s\<lparr>timers := []\<rparr>"

text \<open>
  The data model of the tiles: identifiers are distinct among the active tiles, in
  every snapshot and in the original puzzle, and a selected first tile is active.
\<close>

definition wellformed :: "Session \<Rightarrow> bool" where
  "wellformed s =
     (distinct (map id_str (availableNumbers s))
      \<and> list_all (\<lambda>g. distinct (map id_str (numbers g))) (gameHistory s)
      \<and> (case originalPuzzle s of None \<Rightarrow> False
          | Some p \<Rightarrow> distinct (map id_str (pnumbers p)))
      \<and> set_option (selectedNumber1 s) \<subseteq> set (availableNumbers s))"

text \<open>
  A press is on an active tile, and the identifier drawn for a result tile is not
  the identifier of an active tile.
\<close>

fun valid_action :: "Session \<Rightarrow> Action \<Rightarrow> bool" where
  "valid_action s (PressNumber newId numberObj) =
     (numberObj \<in> set (availableNumbers s)
      \<and> newId \<notin> set (map id_str (availableNumbers s)))"
| "valid_action s _ = True"

fun valid_run :: "(string \<rightharpoonup> LevelData) \<Rightarrow> Action list \<Rightarrow> Session \<Rightarrow> bool" where
  "valid_run levels [] s = True"
| "valid_run levels (a # as) s = (valid_action s a \<and> valid_run levels as (dispatch levels a s))"

section \<open>Concrete sessions\<close>

text \<open>
  Three authored levels: target 3 with tiles 6, 2, 4; target 10 with tiles 5, 5;
  target 7 with tiles 4, 6.
\<close>

definition scenario_levels :: "string \<rightharpoonup> LevelData" where
  "scenario_levels =
     [''1'' \<mapsto> \<lparr>ltarget = 3, lnumbers = [6, 2, 4]\<rparr>,
      ''2'' \<mapsto> \<lparr>ltarget = 10, lnumbers = [5, 5]\<rparr>,
      ''3'' \<mapsto> \<lparr>ltarget = 7, lnumbers = [4, 6]\<rparr>]"

definition tile :: "Session \<Rightarrow> nat \<Rightarrow> NumberObject" where
  "tile s i = availableNumbers s ! i"

definition scenario1_start :: Session where
  "scenario1_start = mount scenario_levels 0 (Some 1)"

definition scenario1_armed :: Session where
  "scenario1_armed =
     run scenario_levels
       [PressNumber ''r0'' (tile scenario1_start 0), PressOperation Div] scenario1_start"

definition scenario1_won :: Session where
  "scenario1_won = pressNumber ''r1'' (tile scenario1_start 1) scenario1_armed"

definition scenario2_start :: Session where
  "scenario2_start = mount scenario_levels 0 (Some 2)"

definition scenario2_armed :: Session where
  "scenario2_armed =
     run scenario_levels
       [PressNumber ''r0'' (tile scenario2_start 0), PressOperation Sub] scenario2_start"

definition scenario3_start :: Session where
  "scenario3_start = mount scenario_levels 0 (Some 3)"

definition scenario3_armed :: Session where
  "scenario3_armed =
     run scenario_levels
       [PressNumber ''r0'' (tile scenario3_start 0), PressOperation Div] scenario3_start"

definition scenario1_played :: Session where
  "scenario1_played =
     run scenario_levels
       [PressNumber ''r1'' (tile scenario1_start 1), Undo,
        PressNumber ''r2'' (tile scenario1_start 0), PressOperation Div,
        PressNumber ''r3'' (tile scenario1_start 1)] scenario1_armed"

definition scenario1_actions :: "Action list" where
  "scenario1_actions =
     [PressNumber ''r0'' (tile scenario1_start 2), PressOperation Div,
      PressNumber ''r1'' (tile scenario1_start 0), Fire InvalidClearTimer,
      PressNumber ''r2'' (tile scenario1_start 0), PressOperation Div,
      PressNumber ''r3'' (tile scenario1_start 1), Undo,
      PressNumber ''r4'' (tile scenario1_start 0), PressOperation Div,
      PressNumber ''r5'' (tile scenario1_start 1),
      PressNumber ''r6'' (tile scenario1_start 2), PressOperation Mul,
      PressNumber ''r7'' \<lparr>value = 3, id_str = ''r5'', position = 0\<rparr>, Restart 1,
      PressNumber ''r8'' (tile scenario1_start 0), PressOperation Sub,
      PressNumber ''r9'' (tile scenario1_start 2)]"

text \<open>
  Level 5 is not authored: its fallback puzzle has the tiles 2, 3, 4, 5 and the
  target 5.
\<close>

definition scenario5_start :: Session where
  "scenario5_start = mount scenario_levels 0 (Some 5)"

definition empty_storage :: Storage where
  "empty_storage = \<lparr>current_level = None, completed_levels = None\<rparr>"

section \<open>Arithmetic evaluator: properties\<close>

lemma trunc_rem_of_int:
  assumes "0 \<le> a" "0 < b"
  shows "trunc_rem (of_int a) (of_int b) = of_int (a mod b)"
proof -
  have "(0::rat) \<le> of_int a / of_int b" using assms by simp
  then have "trunc (of_int a / of_int b) = a div b"
    by (simp add: trunc_def floor_divide_of_int_eq)
  then have "trunc_rem (of_int a) (of_int b) = of_int (a - b * (a div b))"
    by (simp add: trunc_rem_def)
  then show ?thesis by (simp only: minus_mult_div_eq_mod)
qed

lemma validateDivision_pos:
  assumes "0 < a" "0 < b"
  shows "validateDivision (of_int a) (of_int b) \<longleftrightarrow> max a b mod min a b = 0"
proof -
  have "0 \<le> max a b" "0 < min a b" using assms by auto
  then have "trunc_rem (of_int (max a b)) (of_int (min a b)) = of_int (max a b mod min a b)"
    by (rule trunc_rem_of_int)
  moreover have "min a b \<noteq> 0" "b \<noteq> 0" using assms by auto
  ultimately show ?thesis
    by (simp add: validateDivision_def js_rem_def Let_def
        of_int_max [symmetric] of_int_min [symmetric])
qed

lemma validateDivision_pos_sym:
  assumes "0 < a" "0 < b"
  shows "validateDivision (of_int b) (of_int a) = validateDivision (of_int a) (of_int b)"
  using assms by (simp add: validateDivision_pos max.commute min.commute)

text \<open>
  C2. For positive integers \<open>a\<close> and \<open>b\<close>, \<open>validateDivision a b\<close> holds exactly when
  \<open>max a b mod min a b = 0\<close>; then \<open>performCalculation a Div b\<close> returns the exact
  quotient \<open>max a b / min a b\<close>, and otherwise it returns null. Swapping the operands
  changes neither the verdict nor the result.
\<close>

theorem division_symmetric_exact:
  assumes "0 < a" "0 < b"
  shows "(validateDivision (of_int a) (of_int b) \<longleftrightarrow> max a b mod min a b = 0)
       \<and> (validateDivision (of_int a) (of_int b) \<longrightarrow>
            performCalculation (of_int a) Div (of_int b) = Some (of_int (max a b div min a b))
          \<and> (max a b div min a b) * min a b = max a b)
       \<and> (\<not> validateDivision (of_int a) (of_int b) \<longrightarrow>
            performCalculation (of_int a) Div (of_int b) = None)
       \<and> validateDivision (of_int b) (of_int a) = validateDivision (of_int a) (of_int b)
       \<and> performCalculation (of_int b) Div (of_int a)
           = performCalculation (of_int a) Div (of_int b)"
proof -
  have v: "validateDivision (of_int a) (of_int b) \<longleftrightarrow> max a b mod min a b = 0"
    using assms by (rule validateDivision_pos)
  have s: "validateDivision (of_int b) (of_int a) = validateDivision (of_int a) (of_int b)"
    using assms by (rule validateDivision_pos_sym)
  have q: "(max a b div min a b) * min a b = max a b"
    if "validateDivision (of_int a) (of_int b)"
    using v that by auto
  have d: "(of_int (max a b) :: rat) / of_int (min a b) = of_int (max a b div min a b)"
    if "validateDivision (of_int a) (of_int b)"
  proof -
    have "min a b dvd max a b" using v that by (simp add: mod_eq_0_iff_dvd)
    then show ?thesis by (simp only: of_int_div)
  qed
  have r: "performCalculation (of_int a) Div (of_int b) = Some (of_int (max a b div min a b))"
    if "validateDivision (of_int a) (of_int b)"
    using that d [OF that]
    by (simp add: Let_def of_int_max [symmetric] of_int_min [symmetric])
  have c: "performCalculation (of_int b) Div (of_int a)
             = performCalculation (of_int a) Div (of_int b)"
    using s by (simp add: Let_def max.commute min.commute)
  show ?thesis using v s q r c by simp
qed

theorem division_symmetric_exact_witness:
  "validateDivision 6 2 \<and> performCalculation 6 Div 2 = Some 3
   \<and> performCalculation 2 Div 6 = Some 3
   \<and> \<not> validateDivision 4 6 \<and> performCalculation 4 Div 6 = None
   \<and> performCalculation 6 Div 4 = None"
  using division_symmetric_exact [of 6 2] division_symmetric_exact [of 4 6]
  by simp

subsection \<open>Results on non-negative integers\<close>

lemma is_integer_iff: "is_integer q \<longleftrightarrow> q \<in> \<int>"
proof
  assume "is_integer q"
  then have "of_int \<lfloor>q\<rfloor> = q" by (simp only: is_integer_def)
  then show "q \<in> \<int>" by (metis Ints_of_int)
next
  assume "q \<in> \<int>"
  then show "is_integer q" by (simp add: is_integer_def)
qed

lemma validateDivision_quotient:
  assumes "validateDivision a b"
  shows "is_integer (max a b / min a b)"
proof -
  have r: "js_rem (max a b) (min a b) = Some 0"
    using assms by (simp add: validateDivision_def Let_def split: if_splits)
  then have m: "min a b \<noteq> 0" by (auto simp: js_rem_def)
  from r m have "max a b - min a b * of_int (trunc (max a b / min a b)) = 0"
    by (simp add: js_rem_def trunc_rem_def)
  then have "max a b = min a b * of_int (trunc (max a b / min a b))" by simp
  then have "max a b / min a b = of_int (trunc (max a b / min a b))"
    using m by (metis nonzero_mult_div_cancel_left)
  then have "max a b / min a b \<in> \<int>" by (metis Ints_of_int)
  then show ?thesis by (simp only: is_integer_iff)
qed

lemma performCalculation_nonneg_integer:
  assumes "is_integer a" "0 \<le> a" "is_integer b" "0 \<le> b"
    and "performCalculation a op b = Some r"
  shows "is_integer r \<and> 0 \<le> r"
proof (cases op)
  case Add
  then show ?thesis using assms by (auto simp: is_integer_iff)
next
  case Sub
  then show ?thesis using assms by (auto simp: is_integer_iff)
next
  case Mul
  then show ?thesis using assms by (auto simp: is_integer_iff)
next
  case Div
  then have v: "validateDivision a b" and r: "r = max a b / min a b"
    using assms(5) by (auto simp: Let_def split: if_splits)
  have "0 \<le> max a b" "0 \<le> min a b" using assms(2,4) by auto
  then have "0 \<le> max a b / min a b" by simp
  then show ?thesis using validateDivision_quotient [OF v] r by simp
qed

section \<open>Puzzle resolver: properties\<close>

lemma digits10_small: "n < 10 \<Longrightarrow> digits10 n = [digit_char n]"
  by (simp add: digits10.simps [of n])

lemma digits10_large:
  "\<not> n < 10 \<Longrightarrow> digits10 n = digits10 (n div 10) @ [digit_char (n mod 10)]"
  by (simp add: digits10.simps [of n])

lemma toString_9999: "toString 9999 = ''9999''"
  by (simp add: toString_def digits10_small digits10_large digit_char_def)

text \<open>
  C7. For a level number that is not a key of the authored data, \<open>generatePuzzle\<close>
  returns the fallback puzzle: the values 2, 3, 4, 5 each raised by the level number
  modulo 5, at positions 0 to 3, and as target the sum of the first two values. The
  level number is non-negative, as level numbers are.
\<close>

theorem fallback_puzzle:
  assumes "levels (toString levelNum) = None" "0 \<le> levelNum"
  shows "map value (pnumbers (generatePuzzle levels now levelNum))
           = map (\<lambda>v. v + of_int (levelNum mod 5)) [2, 3, 4, 5]
       \<and> map position (pnumbers (generatePuzzle levels now levelNum)) = [0, 1, 2, 3]
       \<and> target (generatePuzzle levels now levelNum)
           = (2 + of_int (levelNum mod 5)) + (3 + of_int (levelNum mod 5))"
proof -
  have "trunc_rem (of_int levelNum) 5 = of_int (levelNum mod 5)"
    using assms(2) trunc_rem_of_int [of levelNum 5] by simp
  then show ?thesis
    using assms(1) by (simp add: generatePuzzle_def createFallbackPuzzle_def Let_def)
qed

text \<open>Level 9999 is not authored: the tiles are 6, 7, 8, 9 and the target is 13.\<close>

theorem fallback_puzzle_witness:
  "scenario_levels (toString 9999) = None
   \<and> map value (pnumbers (generatePuzzle scenario_levels 0 9999)) = [6, 7, 8, 9]
   \<and> map position (pnumbers (generatePuzzle scenario_levels 0 9999)) = [0, 1, 2, 3]
   \<and> target (generatePuzzle scenario_levels 0 9999) = 13"
proof -
  have h: "scenario_levels (toString 9999) = None"
    by (simp add: toString_9999 scenario_levels_def)
  have n: "(0::int) \<le> 9999" by simp
  show ?thesis
    using h fallback_puzzle [where levels = scenario_levels and levelNum = 9999 and now = 0, OF h n]
    by simp
qed

subsection \<open>Identifiers of a generated puzzle\<close>

lemma digits10_nonempty: "digits10 n \<noteq> []"
  by (simp add: digits10.simps [of n])

lemma digit_char_inj:
  assumes "d < 10" "e < 10" "digit_char d = digit_char e"
  shows "d = e"
proof -
  have c: "\<And>k. k < 10 \<Longrightarrow> k \<in> {0, 1, 2, 3, 4, 5, 6, 7, 8, 9::nat}" by auto
  have "d \<in> {0, 1, 2, 3, 4, 5, 6, 7, 8, 9::nat}" "e \<in> {0, 1, 2, 3, 4, 5, 6, 7, 8, 9::nat}"
    using assms(1,2) c by blast+
  then show ?thesis
    using assms(3) by (auto simp: digit_char_def)
qed

lemma digits10_len2:
  assumes "\<not> m < 10"
  shows "2 \<le> length (digits10 m)"
proof -
  have "digits10 m = digits10 (m div 10) @ [digit_char (m mod 10)]"
    using assms by (rule digits10_large)
  moreover have "1 \<le> length (digits10 (m div 10))"
    using digits10_nonempty [of "m div 10"] by (cases "digits10 (m div 10)") simp_all
  ultimately show ?thesis by simp
qed

lemma digits10_inj: "digits10 n = digits10 m \<Longrightarrow> n = m"
proof (induction n arbitrary: m rule: digits10.induct)
  case (1 n)
  show ?case
  proof (cases "n < 10")
    case True
    show ?thesis
    proof (cases "m < 10")
      case True
      with \<open>n < 10\<close> "1.prems" have "digit_char n = digit_char m"
        by (simp add: digits10_small)
      with \<open>n < 10\<close> True show ?thesis by (rule digit_char_inj)
    next
      case False
      then have "2 \<le> length (digits10 m)" by (rule digits10_len2)
      moreover have "length (digits10 n) = 1" using True by (simp add: digits10_small)
      ultimately show ?thesis using "1.prems" by simp
    qed
  next
    case False
    show ?thesis
    proof (cases "m < 10")
      case True
      have "2 \<le> length (digits10 n)" using False by (rule digits10_len2)
      moreover have "length (digits10 m) = 1" using True by (simp add: digits10_small)
      ultimately show ?thesis using "1.prems" by simp
    next
      case m: False
      have "digits10 (n div 10) @ [digit_char (n mod 10)]
              = digits10 (m div 10) @ [digit_char (m mod 10)]"
        using "1.prems" digits10_large [OF False] digits10_large [OF m] by simp
      then have e: "digits10 (n div 10) = digits10 (m div 10)"
        and c: "digit_char (n mod 10) = digit_char (m mod 10)"
        by simp_all
      have "n div 10 = m div 10" using "1.IH" [OF False e] .
      moreover have "n mod 10 = m mod 10"
      proof (rule digit_char_inj)
        show "n mod 10 < 10" "m mod 10 < 10" by simp_all
        show "digit_char (n mod 10) = digit_char (m mod 10)" by (rule c)
      qed
      ultimately have "n div 10 * 10 + n mod 10 = m div 10 * 10 + m mod 10" by simp
      then show ?thesis by (simp only: div_mult_mod_eq)
    qed
  qed
qed

lemma toString_index_inj: "toString (int i) = toString (int j) \<Longrightarrow> i = j"
  by (rule digits10_inj) (simp add: toString_def)

lemma distinct_indexed_ids:
  assumes "\<And>i j v w. id_str (f i v) = id_str (f j w) \<Longrightarrow> i = j"
  shows "distinct (map id_str (map (\<lambda>(index, v). f index v) (enumerate n xs)))"
proof -
  have "inj_on (\<lambda>p. id_str (case p of (index, v) \<Rightarrow> f index v)) (set (enumerate n xs))"
  proof (rule inj_onI)
    fix p q
    assume p: "p \<in> set (enumerate n xs)" and q: "q \<in> set (enumerate n xs)"
      and e: "id_str (case p of (index, v) \<Rightarrow> f index v) = id_str (case q of (index, v) \<Rightarrow> f index v)"
    obtain i v where pv: "p = (i, v)" by (cases p)
    obtain j w where qw: "q = (j, w)" by (cases q)
    have "i = j" using e assms by (simp add: pv qw)
    moreover have "v = xs ! (i - n)" "w = xs ! (j - n)"
      using p q by (simp_all add: pv qw in_set_enumerate_eq)
    ultimately show "p = q" by (simp add: pv qw)
  qed
  moreover have "distinct (enumerate n xs)" by (simp add: distinct_enumerate)
  ultimately show ?thesis
    by (simp add: distinct_map comp_def)
qed

lemma generatePuzzle_distinct:
  "distinct (map id_str (pnumbers (generatePuzzle levels now levelNum)))"
proof (cases "levels (toString levelNum)")
  case None
  have "distinct (map id_str (map (\<lambda>(index, v).
                   \<lparr>value = v + trunc_rem (of_int levelNum) 5,
                    id_str = ''fallback_'' @ toString levelNum @ ''_'' @ toString (int index)
                             @ ''_'' @ toString now,
                    position = int index\<rparr>) (enumerate 0 [2, 3, 4, 5])))"
    by (rule distinct_indexed_ids) (simp, erule toString_index_inj)
  then show ?thesis
    using None by (simp add: generatePuzzle_def createFallbackPuzzle_def Let_def)
next
  case (Some levelData)
  have "distinct (map id_str (map (\<lambda>(index, v).
                   \<lparr>value = v,
                    id_str = ''level_'' @ toString levelNum @ ''_'' @ toString (int index)
                             @ ''_'' @ toString now,
                    position = int index\<rparr>) (enumerate 0 (lnumbers levelData))))"
    by (rule distinct_indexed_ids) (simp, erule toString_index_inj)
  then show ?thesis
    using Some by (simp add: generatePuzzle_def)
qed

section \<open>Level progression: properties\<close>

text \<open>
  C8. Whatever the two storage calls of \<open>nextLevel\<close> do, also when one of them
  fails, the level of the session advances by exactly one, nothing else in the
  session changes, and \<open>onLevelComplete\<close> is called once, with the new level.
\<close>

theorem nextLevel_never_blocked:
  "fst (nextLevel True getFails addFails setFails st s) = s\<lparr>level := level s + 1\<rparr>
   \<and> fst (snd (nextLevel True getFails addFails setFails st s)) = [level s + 1]"
  by (simp add: nextLevel_def Let_def split: option.splits)

text \<open>
  A write to storage that rejects on level 1, and the refusal of level 0 by
  \<open>addCompletedLevel\<close> itself.
\<close>

theorem nextLevel_never_blocked_witness:
  "addCompletedLevel empty_storage False True (level scenario1_start) = None
   \<and> level (fst (nextLevel True False True False empty_storage scenario1_start)) = 2
   \<and> fst (snd (nextLevel True False True False empty_storage scenario1_start)) = [2]
   \<and> addCompletedLevel empty_storage False False 0 = None
   \<and> level (fst (nextLevel True False False False empty_storage
                   (scenario1_start\<lparr>level := 0\<rparr>))) = 1"
proof -
  have l: "level scenario1_start = 1" by code_simp
  have f: "addCompletedLevel empty_storage False True (level scenario1_start) = None"
    by code_simp
  have g: "addCompletedLevel empty_storage False False 0 = None"
    by code_simp
  show ?thesis
    using l f g
      nextLevel_never_blocked [of False True False empty_storage scenario1_start]
      nextLevel_never_blocked [of False False False empty_storage "scenario1_start\<lparr>level := 0\<rparr>"]
    by simp
qed

section \<open>Puzzle session: how the handlers act\<close>

lemma winCheckEffect_fields [simp]:
  "availableNumbers (winCheckEffect s) = availableNumbers s"
  "targetNumber (winCheckEffect s) = targetNumber s"
  "initialGridSize (winCheckEffect s) = initialGridSize s"
  "originalPuzzle (winCheckEffect s) = originalPuzzle s"
  "selectedNumber1 (winCheckEffect s) = selectedNumber1 s"
  "selectedOperation (winCheckEffect s) = selectedOperation s"
  "selectedNumber2 (winCheckEffect s) = selectedNumber2 s"
  "gameHistory (winCheckEffect s) = gameHistory s"
  "level (winCheckEffect s) = level s"
  by (simp_all add: winCheckEffect_def)

lemma winCheckEffect_gameWon:
  "gameWon (winCheckEffect s) = (gameWon s \<or> isGameWon (availableNumbers s) (targetNumber s))"
  by (simp add: winCheckEffect_def)

lemma reducesD:
  assumes "reduces t2 s"
  obtains t op r where "selectedNumber1 s = Some t" "selectedOperation s = Some op"
    "selectedNumber2 s = None" "id_str t2 \<noteq> id_str t"
    "\<not> (op = Div \<and> \<not> validateDivision (value t) (value t2))"
    "performCalculation (value t) op (value t2) = Some r"
  using assms by (auto simp: reduces_def split: option.splits)

lemma selectNumber_reduces:
  assumes "selectedNumber1 s = Some t" "selectedOperation s = Some op"
    "selectedNumber2 s = None" "id_str t2 \<noteq> id_str t"
    "\<not> (op = Div \<and> \<not> validateDivision (value t) (value t2))"
    "performCalculation (value t) op (value t2) = Some r"
  shows "selectNumber newId t2 s =
     resetSelection
       (s\<lparr>selectedNumber2 := Some t2,
          gameHistory := gameHistory s @
             [\<lparr>numbers = availableNumbers s, gridSize = initialGridSize s,
               num1 = t, num2 = t2, operation = op, result = r\<rparr>],
          availableNumbers :=
             filter (\<lambda>n. id_str n \<noteq> id_str t \<and> id_str n \<noteq> id_str t2) (availableNumbers s)
             @ (if 0 < r then [\<lparr>value = r, id_str = newId, position = position t\<rparr>] else [])\<rparr>)"
  using assms
  by (auto simp add: selectNumber_def screen_performCalculation_def Let_def)

lemma undoLastMove_snoc:
  assumes "gameHistory s = h @ [g]"
  shows "undoLastMove s =
     resetSelection (s\<lparr>availableNumbers := numbers g, initialGridSize := gridSize g,
                       gameHistory := h\<rparr>)"
  using assms by (simp add: undoLastMove_def Let_def)

text \<open>
  C3. With a first tile and the division selected, a press on another tile whose
  value does not divide exactly only records the pressed tile, raises the invalid
  signal and schedules its timeout: no tile is consumed and the history is as it was.
  When the timeout runs, the selection is empty and the signal is off; the tiles, the
  history and everything else are those from before the press.
\<close>

theorem invalid_division_rejected:
  assumes "selectedNumber1 s = Some t" "selectedOperation s = Some Div"
    and "selectedNumber2 s = None" "id_str t2 \<noteq> id_str t"
    and "\<not> validateDivision (value t) (value t2)"
  shows "pressNumber newId t2 s =
           s\<lparr>selectedNumber2 := Some t2, invalidOperation := True,
             timers := timers s @ [InvalidClearTimer]\<rparr>
       \<and> availableNumbers (pressNumber newId t2 s) = availableNumbers s
       \<and> gameHistory (pressNumber newId t2 s) = gameHistory s
       \<and> InvalidClearTimer \<in> set (timers (pressNumber newId t2 s))
       \<and> fireTimer InvalidClearTimer (pressNumber newId t2 s) =
           (resetSelection s)\<lparr>timers := remove1 InvalidClearTimer
                                           (timers s @ [InvalidClearTimer])\<rparr>
       \<and> selectedNumber1 (fireTimer InvalidClearTimer (pressNumber newId t2 s)) = None
       \<and> selectedOperation (fireTimer InvalidClearTimer (pressNumber newId t2 s)) = None
       \<and> selectedNumber2 (fireTimer InvalidClearTimer (pressNumber newId t2 s)) = None
       \<and> availableNumbers (fireTimer InvalidClearTimer (pressNumber newId t2 s))
           = availableNumbers s
       \<and> gameHistory (fireTimer InvalidClearTimer (pressNumber newId t2 s)) = gameHistory s"
proof -
  have p: "pressNumber newId t2 s =
           s\<lparr>selectedNumber2 := Some t2, invalidOperation := True,
             timers := timers s @ [InvalidClearTimer]\<rparr>"
    using assms
    by (simp add: pressNumber_def reduces_def selectNumber_def
        screen_performCalculation_def Let_def)
  have f: "fireTimer InvalidClearTimer
             (s\<lparr>selectedNumber2 := Some t2, invalidOperation := True,
                timers := timers s @ [InvalidClearTimer]\<rparr>) =
           (resetSelection s)\<lparr>timers := remove1 InvalidClearTimer
                                           (timers s @ [InvalidClearTimer])\<rparr>"
    by (simp add: fireTimer_def resetSelection_def)
  show ?thesis
    unfolding p f by (simp add: resetSelection_def)
qed

text \<open>Target 7 with tiles 4 and 6: pick 4, pick the division, pick 6.\<close>

theorem invalid_division_rejected_witness:
  "map value (availableNumbers (pressNumber ''r1'' (tile scenario3_start 1) scenario3_armed))
     = [4, 6]
   \<and> gameHistory (pressNumber ''r1'' (tile scenario3_start 1) scenario3_armed) = []
   \<and> invalidOperation (pressNumber ''r1'' (tile scenario3_start 1) scenario3_armed)
   \<and> selectedNumber1 (fireTimer InvalidClearTimer
        (pressNumber ''r1'' (tile scenario3_start 1) scenario3_armed)) = None
   \<and> map value (availableNumbers (fireTimer InvalidClearTimer
        (pressNumber ''r1'' (tile scenario3_start 1) scenario3_armed))) = [4, 6]"
proof -
  have a: "selectedNumber1 scenario3_armed = Some (tile scenario3_start 0)" by code_simp
  have b: "selectedOperation scenario3_armed = Some Div" by code_simp
  have c: "selectedNumber2 scenario3_armed = None" by code_simp
  have d: "id_str (tile scenario3_start 1) \<noteq> id_str (tile scenario3_start 0)" by code_simp
  have e: "\<not> validateDivision (value (tile scenario3_start 0)) (value (tile scenario3_start 1))"
    by code_simp
  have v: "map value (availableNumbers scenario3_armed) = [4, 6]" by code_simp
  have h: "gameHistory scenario3_armed = []" by code_simp
  note rejected = invalid_division_rejected [OF a b c d e, of "''r1''"]
  have p: "availableNumbers (pressNumber ''r1'' (tile scenario3_start 1) scenario3_armed)
             = availableNumbers scenario3_armed"
    and q: "gameHistory (pressNumber ''r1'' (tile scenario3_start 1) scenario3_armed)
             = gameHistory scenario3_armed"
    and f: "availableNumbers (fireTimer InvalidClearTimer
              (pressNumber ''r1'' (tile scenario3_start 1) scenario3_armed))
             = availableNumbers scenario3_armed"
    and n: "selectedNumber1 (fireTimer InvalidClearTimer
              (pressNumber ''r1'' (tile scenario3_start 1) scenario3_armed)) = None"
    using rejected by blast+
  have i: "invalidOperation (pressNumber ''r1'' (tile scenario3_start 1) scenario3_armed)"
    using rejected by simp
  show ?thesis
    using v h p q f n i by simp
qed

text \<open>
  C4. After a press that reduces, an undo gives back the tiles and the grid size from
  before the press, leaves no selection, and takes from the history the one snapshot
  that the reduction had added.
\<close>

theorem undo_after_reduce:
  assumes "reduces t2 s"
  shows "availableNumbers (undo (pressNumber newId t2 s)) = availableNumbers s
       \<and> initialGridSize (undo (pressNumber newId t2 s)) = initialGridSize s
       \<and> selectedNumber1 (undo (pressNumber newId t2 s)) = None
       \<and> selectedOperation (undo (pressNumber newId t2 s)) = None
       \<and> selectedNumber2 (undo (pressNumber newId t2 s)) = None
       \<and> length (gameHistory (pressNumber newId t2 s)) = length (gameHistory s) + 1
       \<and> gameHistory (undo (pressNumber newId t2 s)) = gameHistory s"
proof -
  from assms obtain t op r where
    sel: "selectedNumber1 s = Some t" "selectedOperation s = Some op"
      "selectedNumber2 s = None" "id_str t2 \<noteq> id_str t"
      "\<not> (op = Div \<and> \<not> validateDivision (value t) (value t2))"
      "performCalculation (value t) op (value t2) = Some r"
    by (rule reducesD)
  define g where "g = \<lparr>numbers = availableNumbers s, gridSize = initialGridSize s,
                        num1 = t, num2 = t2, operation = op, result = r\<rparr>"
  define s1 where "s1 = pressNumber newId t2 s"
  have h: "gameHistory s1 = gameHistory s @ [g]"
    using assms
    by (simp add: s1_def pressNumber_def selectNumber_reduces [OF sel] resetSelection_def g_def)
  then have ne: "gameHistory s1 \<noteq> []" by simp
  have u: "undo s1 = winCheckEffect (resetSelection
             (s1\<lparr>availableNumbers := numbers g, initialGridSize := gridSize g,
                 gameHistory := gameHistory s\<rparr>))"
    using ne by (simp add: undo_def undoLastMove_snoc [OF h])
  show ?thesis
    unfolding s1_def [symmetric] using h by (simp add: u resetSelection_def g_def)
qed

text \<open>Target 3 with tiles 6, 2, 4: 6 divided by 2, then undo.\<close>

theorem undo_after_reduce_witness:
  "reduces (tile scenario1_start 1) scenario1_armed
   \<and> map value (availableNumbers scenario1_won) = [4, 3]
   \<and> availableNumbers (undo scenario1_won) = availableNumbers scenario1_armed
   \<and> map value (availableNumbers (undo scenario1_won)) = [6, 2, 4]
   \<and> length (gameHistory scenario1_won) = 1
   \<and> gameHistory (undo scenario1_won) = []"
proof -
  have r: "reduces (tile scenario1_start 1) scenario1_armed" by code_simp
  have v: "map value (availableNumbers scenario1_won) = [4, 3]" by code_simp
  have w: "map value (availableNumbers scenario1_armed) = [6, 2, 4]" by code_simp
  have h: "gameHistory scenario1_armed = []" by code_simp
  note undone = undo_after_reduce [OF r, of "''r1''", folded scenario1_won_def]
  have a: "availableNumbers (undo scenario1_won) = availableNumbers scenario1_armed"
    and l: "length (gameHistory scenario1_won) = length (gameHistory scenario1_armed) + 1"
    and g: "gameHistory (undo scenario1_won) = gameHistory scenario1_armed"
    using undone by blast+
  show ?thesis
    using r v w h a l g by simp
qed

subsection \<open>Tile count\<close>

lemma length_filter_other_id:
  assumes "distinct (map f xs)" "a \<in> set xs"
  shows "length (filter (\<lambda>n. f n \<noteq> f a) xs) + 1 = length xs"
  using assms
proof (induction xs)
  case Nil
  then show ?case by simp
next
  case (Cons x xs)
  show ?case
  proof (cases "x = a")
    case True
    then have "f a \<notin> f ` set xs" using Cons.prems by simp
    then have "\<forall>n\<in>set xs. f n \<noteq> f a" by (metis imageI)
    then have "filter (\<lambda>n. f n \<noteq> f a) xs = xs" by simp
    then show ?thesis using True by simp
  next
    case False
    then have a: "a \<in> set xs" using Cons.prems by simp
    moreover have "f x \<notin> f ` set xs" using Cons.prems by simp
    ultimately have "f x \<noteq> f a" by (metis imageI)
    then show ?thesis using Cons.IH a Cons.prems by simp
  qed
qed

lemma length_filter_two_ids:
  assumes "distinct (map f xs)" "a \<in> set xs" "b \<in> set xs" "f a \<noteq> f b"
  shows "length (filter (\<lambda>n. f n \<noteq> f a \<and> f n \<noteq> f b) xs) + 2 = length xs"
proof -
  let ?ys = "filter (\<lambda>n. f n \<noteq> f a) xs"
  have d: "distinct (map f ?ys)" using assms(1) by (rule distinct_map_filter)
  have b: "b \<in> set ?ys" using assms by simp
  have "length (filter (\<lambda>n. f n \<noteq> f b) ?ys) + 1 = length ?ys"
    using d b by (rule length_filter_other_id)
  moreover have "length ?ys + 1 = length xs"
    using assms(1,2) by (rule length_filter_other_id)
  moreover have "filter (\<lambda>n. f n \<noteq> f b) ?ys = filter (\<lambda>n. f n \<noteq> f a \<and> f n \<noteq> f b) xs"
    by (simp add: conj_commute)
  ultimately show ?thesis by simp
qed

text \<open>
  C5. In a session whose tiles have distinct identifiers, a reduction of two active
  tiles with a positive result leaves one tile fewer: the two operands are gone and
  the result tile, at the position of the first operand, is added. With result 0
  it leaves two tiles fewer, and no tile is added.
\<close>

theorem reduction_tile_count:
  assumes "selectedNumber1 s = Some t" "selectedOperation s = Some op"
    and "reduces t2 s"
    and "performCalculation (value t) op (value t2) = Some r"
    and "distinct (map id_str (availableNumbers s))"
    and "t \<in> set (availableNumbers s)" "t2 \<in> set (availableNumbers s)"
  shows "(0 < r \<longrightarrow>
            length (availableNumbers (pressNumber newId t2 s)) + 1 = length (availableNumbers s)
          \<and> availableNumbers (pressNumber newId t2 s) =
              filter (\<lambda>n. id_str n \<noteq> id_str t \<and> id_str n \<noteq> id_str t2) (availableNumbers s)
              @ [\<lparr>value = r, id_str = newId, position = position t\<rparr>])
       \<and> (r = 0 \<longrightarrow>
            length (availableNumbers (pressNumber newId t2 s)) + 2 = length (availableNumbers s)
          \<and> availableNumbers (pressNumber newId t2 s) =
              filter (\<lambda>n. id_str n \<noteq> id_str t \<and> id_str n \<noteq> id_str t2) (availableNumbers s))"
proof -
  have sel: "selectedNumber2 s = None" "id_str t2 \<noteq> id_str t"
    "\<not> (op = Div \<and> \<not> validateDivision (value t) (value t2))"
    using assms(1-3) by (auto simp: reduces_def)
  have n: "availableNumbers (pressNumber newId t2 s) =
      filter (\<lambda>n. id_str n \<noteq> id_str t \<and> id_str n \<noteq> id_str t2) (availableNumbers s)
             @ (if 0 < r then [\<lparr>value = r, id_str = newId, position = position t\<rparr>] else [])"
    using assms(3)
    by (simp add: pressNumber_def selectNumber_reduces [OF assms(1,2) sel assms(4)]
          resetSelection_def)
  have c: "length (filter (\<lambda>n. id_str n \<noteq> id_str t \<and> id_str n \<noteq> id_str t2)
                     (availableNumbers s)) + 2
      = length (availableNumbers s)"
    using assms(5-7) sel(2) by (intro length_filter_two_ids) auto
  show ?thesis using n c by simp
qed

text \<open>
  Target 3 with tiles 6, 2, 4: 6 divided by 2 leaves 4 and 3. Target 10 with tiles
  5, 5: 5 minus 5 leaves no tile.
\<close>

theorem reduction_tile_count_witness:
  "length (availableNumbers scenario1_armed) = 3
   \<and> availableNumbers (pressNumber ''r1'' (tile scenario1_start 1) scenario1_armed) =
       [tile scenario1_start 2, \<lparr>value = 3, id_str = ''r1'', position = 0\<rparr>]
   \<and> length (availableNumbers scenario2_armed) = 2
   \<and> availableNumbers (pressNumber ''r1'' (tile scenario2_start 1) scenario2_armed) = []"
proof -
  have a1: "selectedNumber1 scenario1_armed = Some (tile scenario1_start 0)" by code_simp
  have b1: "selectedOperation scenario1_armed = Some Div" by code_simp
  have c1: "reduces (tile scenario1_start 1) scenario1_armed" by code_simp
  have d1: "performCalculation (value (tile scenario1_start 0)) Div
              (value (tile scenario1_start 1)) = Some 3" by code_simp
  have e1: "distinct (map id_str (availableNumbers scenario1_armed))" by code_simp
  have f1: "tile scenario1_start 0 \<in> set (availableNumbers scenario1_armed)" by code_simp
  have g1: "tile scenario1_start 1 \<in> set (availableNumbers scenario1_armed)" by code_simp
  have p1: "position (tile scenario1_start 0) = 0" by code_simp
  have l1: "length (availableNumbers scenario1_armed) = 3" by code_simp
  have k1: "filter (\<lambda>n. id_str n \<noteq> id_str (tile scenario1_start 0)
                       \<and> id_str n \<noteq> id_str (tile scenario1_start 1))
              (availableNumbers scenario1_armed) = [tile scenario1_start 2]" by code_simp
  have a2: "selectedNumber1 scenario2_armed = Some (tile scenario2_start 0)" by code_simp
  have b2: "selectedOperation scenario2_armed = Some Sub" by code_simp
  have c2: "reduces (tile scenario2_start 1) scenario2_armed" by code_simp
  have d2: "performCalculation (value (tile scenario2_start 0)) Sub
              (value (tile scenario2_start 1)) = Some 0" by code_simp
  have e2: "distinct (map id_str (availableNumbers scenario2_armed))" by code_simp
  have f2: "tile scenario2_start 0 \<in> set (availableNumbers scenario2_armed)" by code_simp
  have g2: "tile scenario2_start 1 \<in> set (availableNumbers scenario2_armed)" by code_simp
  have l2: "length (availableNumbers scenario2_armed) = 2" by code_simp
  have k2: "filter (\<lambda>n. id_str n \<noteq> id_str (tile scenario2_start 0)
                       \<and> id_str n \<noteq> id_str (tile scenario2_start 1))
              (availableNumbers scenario2_armed) = []" by code_simp
  have r1: "availableNumbers (pressNumber ''r1'' (tile scenario1_start 1) scenario1_armed) =
              filter (\<lambda>n. id_str n \<noteq> id_str (tile scenario1_start 0)
                       \<and> id_str n \<noteq> id_str (tile scenario1_start 1))
                (availableNumbers scenario1_armed)
              @ [\<lparr>value = 3, id_str = ''r1'', position = position (tile scenario1_start 0)\<rparr>]"
    using reduction_tile_count [OF a1 b1 c1 d1 e1 f1 g1, of "''r1''"] by simp
  have r2: "availableNumbers (pressNumber ''r1'' (tile scenario2_start 1) scenario2_armed) =
              filter (\<lambda>n. id_str n \<noteq> id_str (tile scenario2_start 0)
                       \<and> id_str n \<noteq> id_str (tile scenario2_start 1))
                (availableNumbers scenario2_armed)"
    using reduction_tile_count [OF a2 b2 c2 d2 e2 f2 g2, of "''r1''"] by simp
  show ?thesis
    unfolding r1 r2 k1 k2 p1 using l1 l2 by simp
qed

subsection \<open>Identifiers stay distinct\<close>

text \<open>
  The hypotheses of the tile count hold throughout play: from the mounted screen,
  presses on active tiles with fresh result identifiers keep the identifiers
  distinct and the selected first tile among the active tiles.
\<close>

lemma winCheckEffect_wellformed: "wellformed (winCheckEffect s) = wellformed s"
  by (simp add: wellformed_def)

lemma selectNumber_wellformed:
  assumes "wellformed s" "n \<in> set (availableNumbers s)"
    and "newId \<notin> set (map id_str (availableNumbers s))"
  shows "wellformed (selectNumber newId n s)"
proof (cases "reduces n s")
  case True
  then obtain t op r where
    sel: "selectedNumber1 s = Some t" "selectedOperation s = Some op"
      "selectedNumber2 s = None" "id_str n \<noteq> id_str t"
      "\<not> (op = Div \<and> \<not> validateDivision (value t) (value n))"
      "performCalculation (value t) op (value n) = Some r"
    by (rule reducesD)
  have d: "distinct (map id_str (filter (\<lambda>m. id_str m \<noteq> id_str t \<and> id_str m \<noteq> id_str n)
             (availableNumbers s)))"
    using assms(1) by (simp add: wellformed_def distinct_map_filter)
  have f: "newId \<notin> id_str ` set (filter (\<lambda>m. id_str m \<noteq> id_str t \<and> id_str m \<noteq> id_str n)
             (availableNumbers s))"
    using assms(3) by auto
  show ?thesis
    using assms(1) d f
    by (simp add: selectNumber_reduces [OF sel] resetSelection_def wellformed_def)
next
  case False
  then show ?thesis
    using assms(1,2)
    by (auto simp: selectNumber_def screen_performCalculation_def reduces_def
        wellformed_def Let_def split: option.splits)
qed

lemma undoLastMove_wellformed:
  assumes "wellformed s"
  shows "wellformed (undoLastMove s)"
proof (cases "gameHistory s" rule: rev_cases)
  case Nil
  then show ?thesis using assms by (simp add: undoLastMove_def)
next
  case (snoc h g)
  then show ?thesis
    using assms
    by (simp add: undoLastMove_snoc [OF snoc] resetSelection_def wellformed_def)
qed

lemma restartLevel_wellformed:
  assumes "wellformed s"
  shows "wellformed (restartLevel levels now s)"
  using assms
  by (auto simp: restartLevel_def resetSelection_def wellformed_def split: option.splits)

lemma fireTimer_wellformed:
  assumes "wellformed s"
  shows "wellformed (fireTimer t s)"
  using assms
  by (cases t) (auto simp: fireTimer_def resetSelection_def wellformed_def)

lemma dispatch_wellformed:
  assumes "wellformed s" "valid_action s a"
  shows "wellformed (dispatch levels a s)"
proof (cases a)
  case (PressNumber newId n)
  then show ?thesis
    using assms
    by (simp add: pressNumber_def winCheckEffect_wellformed selectNumber_wellformed)
next
  case (PressOperation op)
  then show ?thesis
    using assms
    by (simp add: operationButton_handlePress_def selectOperation_def wellformed_def)
next
  case Clear
  then show ?thesis
    using assms
    by (simp add: actionButtons_handleClear_def resetSelection_def wellformed_def)
next
  case Undo
  then show ?thesis
    using assms by (simp add: undo_def winCheckEffect_wellformed undoLastMove_wellformed)
next
  case (Restart now)
  then show ?thesis
    using assms by (simp add: restart_def winCheckEffect_wellformed restartLevel_wellformed)
next
  case (Fire t)
  then show ?thesis using assms by (simp add: fireTimer_wellformed)
qed

lemma run_wellformed:
  "wellformed s \<Longrightarrow> valid_run levels acts s \<Longrightarrow> wellformed (run levels acts s)"
  by (induction acts arbitrary: s) (simp_all add: dispatch_wellformed)

lemma mount_wellformed: "wellformed (mount levels now il)"
  by (simp add: mount_def winCheckEffect_wellformed loadLevelEffect_def Let_def
      resetSelection_def wellformed_def generatePuzzle_distinct)

lemma reachable_wellformed:
  assumes "valid_run levels acts (mount levels now il)"
  shows "distinct (map id_str (availableNumbers (run levels acts (mount levels now il))))"
    and "selectedNumber1 (run levels acts (mount levels now il)) = Some t
         \<Longrightarrow> t \<in> set (availableNumbers (run levels acts (mount levels now il)))"
proof -
  have w: "wellformed (run levels acts (mount levels now il))"
    using mount_wellformed assms by (rule run_wellformed)
  show "distinct (map id_str (availableNumbers (run levels acts (mount levels now il))))"
    using w by (simp add: wellformed_def)
  show "t \<in> set (availableNumbers (run levels acts (mount levels now il)))"
    if "selectedNumber1 (run levels acts (mount levels now il)) = Some t"
    using w that by (simp add: wellformed_def)
qed

subsection \<open>Operations need a first tile\<close>

lemma dispatch_operation_needs_first:
  assumes "operation_needs_first s"
  shows "operation_needs_first (dispatch levels a s)"
proof (cases a)
  case (PressNumber newId n)
  have "operation_needs_first (selectNumber newId n s)"
    using assms
    by (auto simp: selectNumber_def screen_performCalculation_def resetSelection_def
        operation_needs_first_def Let_def split: option.splits)
  then show ?thesis
    using PressNumber by (simp add: pressNumber_def operation_needs_first_def)
next
  case (PressOperation op)
  then show ?thesis
    using assms
    by (auto simp: operationButton_handlePress_def selectOperation_def
        operation_needs_first_def)
next
  case Clear
  then show ?thesis
    using assms
    by (auto simp: actionButtons_handleClear_def resetSelection_def operation_needs_first_def)
next
  case Undo
  then show ?thesis
    using assms
    by (auto simp: undo_def undoLastMove_def resetSelection_def Let_def
        operation_needs_first_def)
next
  case (Restart now)
  then show ?thesis
    by (auto simp: restart_def restartLevel_def resetSelection_def operation_needs_first_def)
next
  case (Fire t)
  then show ?thesis
    using assms
    by (cases t) (auto simp: fireTimer_def resetSelection_def operation_needs_first_def)
qed

lemma run_operation_needs_first:
  "operation_needs_first s \<Longrightarrow> operation_needs_first (run levels acts s)"
  by (induction acts arbitrary: s) (simp_all add: dispatch_operation_needs_first)

lemma mount_operation_needs_first: "operation_needs_first (mount levels now il)"
  by (simp add: mount_def loadLevelEffect_def resetSelection_def operation_needs_first_def
      Let_def)

text \<open>
  C9. While no first tile is selected, \<open>selectOperation\<close> changes nothing, and so
  does a press on an operation button: selection, tiles and history stay as they
  are. In every session reached from the mounted screen, an operation is selected
  only if a first tile is.
\<close>

theorem operation_without_first_tile:
  "(selectedNumber1 s = None \<longrightarrow>
       selectOperation op s = s \<and> operationButton_handlePress op s = s
     \<and> dispatch levels (PressOperation op) s = s)
   \<and> operation_needs_first (run levels acts (mount levels now il))"
  by (simp add: selectOperation_def operationButton_handlePress_def
      run_operation_needs_first mount_operation_needs_first)

theorem operation_without_first_tile_witness:
  "selectedNumber1 scenario1_start = None
   \<and> dispatch scenario_levels (PressOperation Add) scenario1_start = scenario1_start
   \<and> selectedOperation scenario1_armed = Some Div
   \<and> selectedNumber1 scenario1_armed \<noteq> None"
proof -
  have n: "selectedNumber1 scenario1_start = None" by code_simp
  have o: "selectedOperation scenario1_armed = Some Div" by code_simp
  note inst = operation_without_first_tile
      [of scenario1_start Add scenario_levels
          "[PressNumber ''r0'' (tile scenario1_start 0), PressOperation Div]" 0 "Some 1",
       folded scenario1_start_def, folded scenario1_armed_def]
  have d: "dispatch scenario_levels (PressOperation Add) scenario1_start = scenario1_start"
    using inst n by blast
  have f: "operation_needs_first scenario1_armed"
    using inst by blast
  show ?thesis
    using n o d f by (simp add: operation_needs_first_def)
qed

subsection \<open>The won flag\<close>

text \<open>
  C1, as the code has it. After a restart the won flag is true exactly when an
  active tile has the target value. After a reduction and after an undo that
  finds a snapshot, the flag is true exactly when it was true before or an active
  tile has the target value: whenever a tile has the target value the flag is
  true, and neither operation clears it. An undo of a winning move leaves it true.
\<close>

theorem won_latched:
  "(reduces t2 s \<longrightarrow>
      gameWon (pressNumber newId t2 s) =
        (gameWon s \<or> isGameWon (availableNumbers (pressNumber newId t2 s))
                                (targetNumber (pressNumber newId t2 s))))
   \<and> (gameHistory s \<noteq> [] \<longrightarrow>
      gameWon (undo s) =
        (gameWon s \<or> isGameWon (availableNumbers (undo s)) (targetNumber (undo s))))
   \<and> gameWon (restart levels now s) =
        isGameWon (availableNumbers (restart levels now s))
                  (targetNumber (restart levels now s))"
proof -
  have r: "gameWon (selectNumber newId t2 s) = gameWon s" if "reduces t2 s"
  proof -
    from that obtain t op r where
      sel: "selectedNumber1 s = Some t" "selectedOperation s = Some op"
        "selectedNumber2 s = None" "id_str t2 \<noteq> id_str t"
        "\<not> (op = Div \<and> \<not> validateDivision (value t) (value t2))"
        "performCalculation (value t) op (value t2) = Some r"
      by (rule reducesD)
    show ?thesis by (simp add: selectNumber_reduces [OF sel] resetSelection_def)
  qed
  have u: "gameWon (undoLastMove s) = gameWon s"
    by (simp add: undoLastMove_def resetSelection_def Let_def)
  have rs: "gameWon (restartLevel levels now s) = False"
    by (simp add: restartLevel_def)
  show ?thesis
    using r u rs by (simp add: pressNumber_def undo_def restart_def winCheckEffect_gameWon)
qed

text \<open>
  Target 3 with tiles 6, 2, 4: 6 divided by 2 sets the flag; a restart after it
  clears the flag, as no original tile is 3.
\<close>

theorem won_latched_witness:
  "reduces (tile scenario1_start 1) scenario1_armed
   \<and> \<not> gameWon scenario1_armed
   \<and> isGameWon (availableNumbers scenario1_won) (targetNumber scenario1_won)
   \<and> gameWon scenario1_won
   \<and> gameHistory scenario1_won \<noteq> []
   \<and> gameWon (undo scenario1_won)
   \<and> \<not> gameWon (restart scenario_levels 0 scenario1_won)"
proof -
  have r: "reduces (tile scenario1_start 1) scenario1_armed" by code_simp
  have n: "\<not> gameWon scenario1_armed" by code_simp
  have w: "isGameWon (availableNumbers scenario1_won) (targetNumber scenario1_won)"
    by code_simp
  have h: "gameHistory scenario1_won \<noteq> []" by code_simp
  have o: "\<not> isGameWon (availableNumbers (restart scenario_levels 0 scenario1_won))
                        (targetNumber (restart scenario_levels 0 scenario1_won))"
    by code_simp
  note red = won_latched [of "tile scenario1_start 1" scenario1_armed "''r1''",
      folded scenario1_won_def]
  note und = won_latched [of _ scenario1_won _ scenario_levels 0]
  have g: "gameWon scenario1_won" using red r w by blast
  have k: "gameWon (undo scenario1_won)" using und h g by blast
  have c: "\<not> gameWon (restart scenario_levels 0 scenario1_won)" using und o by blast
  show ?thesis using r n w g h k c by simp
qed

text \<open>
  C1 as stated fails: target 3 with tiles 6, 2, 4; after 6 divided by 2 the tiles are
  4 and 3 and the flag is set; after the undo the tiles are 6, 2, 4 again, none of
  them is 3, and the flag is still set.
\<close>

theorem undo_keeps_won_counterexample:
  "map value (availableNumbers scenario1_won) = [4, 3]
   \<and> targetNumber scenario1_won = 3
   \<and> gameWon scenario1_won
   \<and> map value (availableNumbers (undo scenario1_won)) = [6, 2, 4]
   \<and> targetNumber (undo scenario1_won) = 3
   \<and> \<not> (gameWon (undo scenario1_won)
          \<longleftrightarrow> isGameWon (availableNumbers (undo scenario1_won))
                         (targetNumber (undo scenario1_won)))"
  by code_simp

subsection \<open>Restart\<close>

lemma dispatch_originalPuzzle:
  assumes "originalPuzzle s = Some p"
  shows "originalPuzzle (dispatch levels a s) = Some p"
proof (cases a)
  case (PressNumber newId n)
  have "originalPuzzle (selectNumber newId n s) = Some p"
    using assms
    by (auto simp: selectNumber_def screen_performCalculation_def resetSelection_def
        Let_def split: option.splits)
  then show ?thesis using PressNumber by (simp add: pressNumber_def)
next
  case (PressOperation op)
  then show ?thesis
    using assms by (simp add: operationButton_handlePress_def selectOperation_def)
next
  case Clear
  then show ?thesis
    using assms by (simp add: actionButtons_handleClear_def resetSelection_def)
next
  case Undo
  then show ?thesis
    using assms by (simp add: undo_def undoLastMove_def resetSelection_def Let_def)
next
  case (Restart now)
  then show ?thesis
    using assms by (simp add: restart_def restartLevel_def resetSelection_def)
next
  case (Fire t)
  then show ?thesis
    using assms by (cases t) (simp_all add: fireTimer_def resetSelection_def)
qed

lemma run_originalPuzzle:
  "originalPuzzle s = Some p \<Longrightarrow> originalPuzzle (run levels acts s) = Some p"
  by (induction acts arbitrary: s) (simp_all add: dispatch_originalPuzzle)

lemma restartLevel_Some:
  assumes "originalPuzzle s = Some p"
  shows "restartLevel levels now s =
     s\<lparr>targetNumber := target p, availableNumbers := pnumbers p,
       initialGridSize := int (length (pnumbers p)),
       selectedNumber1 := None, selectedOperation := None, selectedNumber2 := None,
       invalidOperation := False, gameWon := False, showLevelComplete := False,
       gameHistory := []\<rparr>"
  using assms by (simp add: restartLevel_def resetSelection_def)

lemma restartLevel_normal:
  "\<exists>p. restartLevel levels now s =
     s\<lparr>targetNumber := target p, availableNumbers := pnumbers p,
       initialGridSize := int (length (pnumbers p)), originalPuzzle := Some p,
       selectedNumber1 := None, selectedOperation := None, selectedNumber2 := None,
       invalidOperation := False, gameWon := False, showLevelComplete := False,
       gameHistory := []\<rparr>"
proof (cases "originalPuzzle s")
  case None
  then show ?thesis
    by (intro exI [of _ "generatePuzzle levels now (level s)"])
       (simp add: restartLevel_def resetSelection_def Let_def)
next
  case (Some p)
  then show ?thesis
    by (intro exI [of _ p]) (simp add: restartLevel_def resetSelection_def)
qed

lemma restartLevel_idem:
  "restartLevel levels now' (restartLevel levels now s) = restartLevel levels now s"
  by (cases "originalPuzzle s") (simp_all add: restartLevel_def resetSelection_def Let_def)

lemma restart_idem:
  "forget_timers (restart levels now' (restart levels now s))
     = forget_timers (restart levels now s)"
proof -
  obtain p where p: "restartLevel levels now s =
     s\<lparr>targetNumber := target p, availableNumbers := pnumbers p,
       initialGridSize := int (length (pnumbers p)), originalPuzzle := Some p,
       selectedNumber1 := None, selectedOperation := None, selectedNumber2 := None,
       invalidOperation := False, gameWon := False, showLevelComplete := False,
       gameHistory := []\<rparr>"
    using restartLevel_normal by blast
  have o: "originalPuzzle (restart levels now s) = Some p"
    by (simp add: restart_def p)
  show ?thesis
    by (simp add: restart_def [of levels now'] restartLevel_Some [OF o])
       (simp add: restart_def p winCheckEffect_def forget_timers_def)
qed

text \<open>
  C6, as the code has it. Let the session hold its original puzzle. After any
  sequence of actions, the restart sets tiles, target and grid size to those of the
  original puzzle and empties the history and the selection, both before and after
  the win check that follows it. \<open>restartLevel\<close> clears the won flag and the win check
  sets it again exactly when a tile of the original puzzle has the target value: after
  the restart the flag is true if and only if such a tile exists. A second restart
  changes nothing more: \<open>restartLevel\<close> is idempotent, and so is the restart with its
  win check on the component state.
\<close>

theorem restart_returns_to_original:
  assumes "originalPuzzle s = Some p"
  shows "availableNumbers (restart levels now (run levels acts s)) = pnumbers p
       \<and> targetNumber (restart levels now (run levels acts s)) = target p
       \<and> initialGridSize (restart levels now (run levels acts s)) = int (length (pnumbers p))
       \<and> gameHistory (restart levels now (run levels acts s)) = []
       \<and> selectedNumber1 (restart levels now (run levels acts s)) = None
       \<and> selectedOperation (restart levels now (run levels acts s)) = None
       \<and> selectedNumber2 (restart levels now (run levels acts s)) = None
       \<and> gameWon (restart levels now (run levels acts s)) = isGameWon (pnumbers p) (target p)
       \<and> forget_timers (restart levels now' (restart levels now (run levels acts s)))
           = forget_timers (restart levels now (run levels acts s))
       \<and> availableNumbers (restartLevel levels now (run levels acts s)) = pnumbers p
       \<and> targetNumber (restartLevel levels now (run levels acts s)) = target p
       \<and> initialGridSize (restartLevel levels now (run levels acts s))
           = int (length (pnumbers p))
       \<and> gameHistory (restartLevel levels now (run levels acts s)) = []
       \<and> selectedNumber1 (restartLevel levels now (run levels acts s)) = None
       \<and> selectedOperation (restartLevel levels now (run levels acts s)) = None
       \<and> selectedNumber2 (restartLevel levels now (run levels acts s)) = None
       \<and> gameWon (restartLevel levels now (run levels acts s)) = False
       \<and> restartLevel levels now' (restartLevel levels now (run levels acts s))
           = restartLevel levels now (run levels acts s)"
proof -
  have o: "originalPuzzle (run levels acts s) = Some p"
    using assms by (rule run_originalPuzzle)
  have w: "gameWon (restart levels now (run levels acts s)) = isGameWon (pnumbers p) (target p)"
    by (simp add: restart_def winCheckEffect_gameWon restartLevel_Some [OF o])
  show ?thesis
    by (simp add: restartLevel_idem restart_idem w)
       (simp add: restart_def restartLevel_Some [OF o])
qed

text \<open>
  Target 3 with tiles 6, 2, 4: 6 divided by 2, an undo, 6 divided by 2 again, then
  the restart, which clears the won flag for good. Target 5 with tiles 2, 3, 4, 5:
  after the restart the won flag is set.
\<close>

theorem restart_returns_to_original_witness:
  "originalPuzzle scenario1_armed = Some (generatePuzzle scenario_levels 0 1)
   \<and> map value (availableNumbers scenario1_played) = [4, 3]
   \<and> gameHistory scenario1_played \<noteq> []
   \<and> gameWon scenario1_played
   \<and> map value (availableNumbers (restart scenario_levels 0 scenario1_played)) = [6, 2, 4]
   \<and> targetNumber (restart scenario_levels 0 scenario1_played) = 3
   \<and> gameHistory (restart scenario_levels 0 scenario1_played) = []
   \<and> gameWon (restart scenario_levels 0 scenario1_played) = False
   \<and> gameWon (restartLevel scenario_levels 0 scenario1_played) = False
   \<and> originalPuzzle scenario5_start = Some (generatePuzzle scenario_levels 0 5)
   \<and> gameWon (restartLevel scenario_levels 0 scenario5_start) = False
   \<and> gameWon (restart scenario_levels 0 scenario5_start) = True"
proof -
  have o: "originalPuzzle scenario1_armed = Some (generatePuzzle scenario_levels 0 1)"
    by code_simp
  have v: "map value (pnumbers (generatePuzzle scenario_levels 0 1)) = [6, 2, 4]"
    by code_simp
  have t: "target (generatePuzzle scenario_levels 0 1) = 3"
    by code_simp
  have n: "\<not> isGameWon (pnumbers (generatePuzzle scenario_levels 0 1))
                        (target (generatePuzzle scenario_levels 0 1))"
    by code_simp
  have b: "map value (availableNumbers scenario1_played) = [4, 3]"
    by code_simp
  have h: "gameHistory scenario1_played \<noteq> []"
    by code_simp
  have w: "gameWon scenario1_played"
    by code_simp
  note inst = restart_returns_to_original [OF o, of scenario_levels 0
        "[PressNumber ''r1'' (tile scenario1_start 1), Undo,
          PressNumber ''r2'' (tile scenario1_start 0), PressOperation Div,
          PressNumber ''r3'' (tile scenario1_start 1)]", folded scenario1_played_def]
  have a: "availableNumbers (restart scenario_levels 0 scenario1_played)
             = pnumbers (generatePuzzle scenario_levels 0 1)"
    and c: "targetNumber (restart scenario_levels 0 scenario1_played)
             = target (generatePuzzle scenario_levels 0 1)"
    and e: "gameHistory (restart scenario_levels 0 scenario1_played) = []"
    and g: "gameWon (restart scenario_levels 0 scenario1_played)
             = isGameWon (pnumbers (generatePuzzle scenario_levels 0 1))
                         (target (generatePuzzle scenario_levels 0 1))"
    and k: "gameWon (restartLevel scenario_levels 0 scenario1_played) = False"
    using inst by blast+
  have o5: "originalPuzzle scenario5_start = Some (generatePuzzle scenario_levels 0 5)"
    by code_simp
  have w5: "isGameWon (pnumbers (generatePuzzle scenario_levels 0 5))
                      (target (generatePuzzle scenario_levels 0 5))"
    by code_simp
  note inst5 = restart_returns_to_original [OF o5, of scenario_levels 0 "[]", simplified]
  have g5: "gameWon (restart scenario_levels 0 scenario5_start)
              = isGameWon (pnumbers (generatePuzzle scenario_levels 0 5))
                          (target (generatePuzzle scenario_levels 0 5))"
    and k5: "gameWon (restartLevel scenario_levels 0 scenario5_start) = False"
    using inst5 by blast+
  have g': "gameWon (restart scenario_levels 0 scenario1_played) = False"
    using g n by simp
  have g5': "gameWon (restart scenario_levels 0 scenario5_start) = True"
    using g5 w5 by simp
  show ?thesis
    using o b h w e k o5 k5 g' g5' by (simp add: a c v t)
qed

text \<open>
  C6 as stated fails: level 5 is not authored, its puzzle has the target 5 and the
  tiles 2, 3, 4, 5; after the restart the tiles are those of the original puzzle
  and the won flag is set, not cleared.
\<close>

theorem restart_sets_won_counterexample:
  "scenario_levels (toString 5) = None
   \<and> originalPuzzle scenario5_start = Some (generatePuzzle scenario_levels 0 5)
   \<and> map value (pnumbers (generatePuzzle scenario_levels 0 5)) = [2, 3, 4, 5]
   \<and> target (generatePuzzle scenario_levels 0 5) = 5
   \<and> map value (availableNumbers (dispatch scenario_levels (Restart 0) scenario5_start))
       = [2, 3, 4, 5]
   \<and> targetNumber (dispatch scenario_levels (Restart 0) scenario5_start) = 5
   \<and> gameWon (dispatch scenario_levels (Restart 0) scenario5_start)
   \<and> gameWon (restart scenario_levels 0 scenario5_start)"
  by code_simp

subsection \<open>Tile values stay non-negative integers\<close>

lemma winCheckEffect_nonneg_integer:
  "nonneg_integer_session (winCheckEffect s) = nonneg_integer_session s"
  by (simp add: nonneg_integer_session_def)

lemma resetSelection_nonneg_integer:
  "nonneg_integer_session s \<Longrightarrow> nonneg_integer_session (resetSelection s)"
  by (simp add: nonneg_integer_session_def resetSelection_def)

lemma selectNumber_nonneg_integer:
  assumes "nonneg_integer_session s" "n \<in> set (availableNumbers s)"
  shows "nonneg_integer_session (selectNumber newId n s)"
proof (cases "reduces n s")
  case True
  then obtain t op r where
    sel: "selectedNumber1 s = Some t" "selectedOperation s = Some op"
      "selectedNumber2 s = None" "id_str n \<noteq> id_str t"
      "\<not> (op = Div \<and> \<not> validateDivision (value t) (value n))"
      "performCalculation (value t) op (value n) = Some r"
    by (rule reducesD)
  have all: "\<forall>m\<in>set (availableNumbers s). is_integer (value m) \<and> 0 \<le> value m"
    using assms(1) by (simp add: nonneg_integer_session_def nonneg_integer_tiles_def list_all_iff)
  have "t \<in> set (availableNumbers s)"
    using assms(1) sel(1) by (simp add: nonneg_integer_session_def)
  then have t: "is_integer (value t)" "0 \<le> value t" using all by blast+
  have n: "is_integer (value n)" "0 \<le> value n" using all assms(2) by blast+
  have r: "is_integer r \<and> 0 \<le> r"
    using t n sel(6) by (intro performCalculation_nonneg_integer)
  show ?thesis
    using assms(1) all r
    by (auto simp add: selectNumber_reduces [OF sel] resetSelection_def
        nonneg_integer_session_def nonneg_integer_tiles_def list_all_iff)
next
  case False
  then show ?thesis
    using assms
    by (auto simp: selectNumber_def screen_performCalculation_def reduces_def
        nonneg_integer_session_def Let_def split: option.splits)
qed

lemma undoLastMove_nonneg_integer:
  assumes "nonneg_integer_session s"
  shows "nonneg_integer_session (undoLastMove s)"
proof (cases "gameHistory s" rule: rev_cases)
  case Nil
  then show ?thesis using assms by (simp add: undoLastMove_def)
next
  case (snoc h g)
  then show ?thesis
    using assms
    by (simp add: undoLastMove_snoc [OF snoc] resetSelection_def nonneg_integer_session_def)
qed

lemma restartLevel_nonneg_integer:
  assumes "nonneg_integer_session s"
  shows "nonneg_integer_session (restartLevel levels now s)"
  using assms
  by (auto simp: restartLevel_def resetSelection_def nonneg_integer_session_def
      split: option.splits)

lemma fireTimer_nonneg_integer:
  assumes "nonneg_integer_session s"
  shows "nonneg_integer_session (fireTimer t s)"
  using assms
  by (cases t) (auto simp: fireTimer_def resetSelection_def nonneg_integer_session_def)

lemma dispatch_nonneg_integer:
  assumes "nonneg_integer_session s" "active_press s a"
  shows "nonneg_integer_session (dispatch levels a s)"
proof (cases a)
  case (PressNumber newId n)
  then show ?thesis
    using assms
    by (simp add: pressNumber_def winCheckEffect_nonneg_integer selectNumber_nonneg_integer)
next
  case (PressOperation op)
  then show ?thesis
    using assms
    by (simp add: operationButton_handlePress_def selectOperation_def
        nonneg_integer_session_def)
next
  case Clear
  then show ?thesis
    using assms by (simp add: actionButtons_handleClear_def resetSelection_nonneg_integer)
next
  case Undo
  then show ?thesis
    using assms
    by (simp add: undo_def winCheckEffect_nonneg_integer undoLastMove_nonneg_integer)
next
  case (Restart now)
  then show ?thesis
    using assms
    by (simp add: restart_def winCheckEffect_nonneg_integer restartLevel_nonneg_integer)
next
  case (Fire t)
  then show ?thesis using assms by (simp add: fireTimer_nonneg_integer)
qed

lemma run_nonneg_integer:
  "nonneg_integer_session s \<Longrightarrow> active_run levels acts s
     \<Longrightarrow> nonneg_integer_session (run levels acts s)"
  by (induction acts arbitrary: s) (simp_all add: dispatch_nonneg_integer)

lemma mount_nonneg_integer:
  assumes "nonneg_integer_tiles
             (pnumbers (generatePuzzle levels now (level (initialSession il))))"
  shows "nonneg_integer_session (mount levels now il)"
  using assms
  by (simp add: mount_def winCheckEffect_nonneg_integer loadLevelEffect_def Let_def
      resetSelection_def nonneg_integer_session_def)

text \<open>
  C10. Let every tile value of the puzzle loaded at mount be a non-negative integer,
  and let every press be on an active tile. Then after any sequence of actions on
  the mounted session (tile and operation presses, hence reductions, undo, clear,
  restart, timeouts) every active tile value is a non-negative integer. The
  arithmetic behind it: on non-negative integers, every result that
  \<open>performCalculation\<close> returns is a non-negative integer; for the division this
  rests on the check of \<open>validateDivision\<close>.
\<close>

theorem tile_values_stay_nonneg_integer:
  assumes "nonneg_integer_tiles
             (pnumbers (generatePuzzle levels now (level (initialSession il))))"
    and "active_run levels acts (mount levels now il)"
  shows "nonneg_integer_tiles (availableNumbers (run levels acts (mount levels now il)))
       \<and> (is_integer a \<and> 0 \<le> a \<and> is_integer b \<and> 0 \<le> b
            \<and> performCalculation a op b = Some r \<longrightarrow> is_integer r \<and> 0 \<le> r)"
proof -
  have "nonneg_integer_session (mount levels now il)"
    using assms(1) by (rule mount_nonneg_integer)
  then have "nonneg_integer_session (run levels acts (mount levels now il))"
    using assms(2) by (rule run_nonneg_integer)
  then show ?thesis
    using performCalculation_nonneg_integer [of a b op r]
    by (simp add: nonneg_integer_session_def)
qed

text \<open>
  Target 3 with tiles 6, 2, 4: 4 by 6 is refused; 6 by 2 gives 3, is undone and
  done again; 4 times 3 gives 12; after the restart 6 minus 4 gives 2 beside the
  tile 2. A quotient that is no integer is never returned: 3 by 2 is refused.
\<close>

theorem tile_values_stay_nonneg_integer_witness:
  "nonneg_integer_tiles
     (pnumbers (generatePuzzle scenario_levels 0 (level (initialSession (Some 1)))))
   \<and> active_run scenario_levels scenario1_actions scenario1_start
   \<and> map value (availableNumbers (run scenario_levels scenario1_actions scenario1_start))
       = [2, 2]
   \<and> nonneg_integer_tiles
       (availableNumbers (run scenario_levels scenario1_actions scenario1_start))
   \<and> performCalculation 6 Div 2 = Some 3
   \<and> is_integer 3
   \<and> performCalculation 3 Div 2 = None
   \<and> \<not> is_integer (3 / 2)"
proof -
  have h: "nonneg_integer_tiles
             (pnumbers (generatePuzzle scenario_levels 0 (level (initialSession (Some 1)))))"
    by code_simp
  have a: "active_run scenario_levels scenario1_actions (mount scenario_levels 0 (Some 1))"
    by code_simp
  have v: "map value (availableNumbers (run scenario_levels scenario1_actions scenario1_start))
             = [2, 2]"
    by code_simp
  have i6: "is_integer 6 \<and> (0::rat) \<le> 6" by code_simp
  have i2: "is_integer 2 \<and> (0::rat) \<le> 2" by code_simp
  have c: "performCalculation 6 Div 2 = Some 3" by code_simp
  have d: "performCalculation 3 Div 2 = None" by code_simp
  have f: "\<not> is_integer (3 / 2)" by code_simp
  note inst = tile_values_stay_nonneg_integer
      [OF h a, of 6 2 Div 3, folded scenario1_start_def]
  have n: "nonneg_integer_tiles
             (availableNumbers (run scenario_levels scenario1_actions scenario1_start))"
    using inst by blast
  have i3: "is_integer 3"
    using inst i6 i2 c by blast
  show ?thesis
    using h a v n c i3 d f by (simp add: scenario1_start_def)
qed

end
